theory Spec2Isabelle
  imports Main "HOL-Library.AList"
begin

section \<open>JavaScript values that Breakpoints.ts computes with\<close>

text \<open>
  Widths are the integer pixel widths of the breakpoint set, of type \<open>int\<close>; fractional
  widths are outside the model. Comparison is exact on integers. Subtraction and the
  decimal text of a number are those of the source on the safe integers only (beyond them
  \<open>width - 1\<close> is rounded and the text may be in exponent notation), so every statement
  about the text of a compiled query carries \<open>Number_isSafeInteger\<close> for the widths it
  prints. Reading a name that the set does not hold yields \<open>undefined\<close>, written \<open>None\<close>;
  arithmetic and comparison on it go through \<open>NaN\<close>, and \<open>Math.min\<close> and \<open>Math.max\<close> of
  no argument are the two infinities.
\<close>

datatype number = Finite int | NaN | PosInfinity | NegInfinity

fun ToNumber :: "int option \<Rightarrow> number" where
  "ToNumber None = NaN"
| "ToNumber (Some w) = Finite w"

text \<open>The operator \<open><\<close> on numbers: false as soon as one side is \<open>NaN\<close>.\<close>

fun lt :: "number \<Rightarrow> number \<Rightarrow> bool" where
  "lt NaN _ = False"
| "lt _ NaN = False"
| "lt (Finite a) (Finite b) = (a < b)"
| "lt (Finite _) PosInfinity = True"
| "lt (Finite _) NegInfinity = False"
| "lt PosInfinity _ = False"
| "lt NegInfinity NegInfinity = False"
| "lt NegInfinity _ = True"

text \<open>The operator \<open>>=\<close>: false on \<open>NaN\<close>, otherwise the negation of \<open><\<close>.\<close>

definition ge :: "number \<Rightarrow> number \<Rightarrow> bool" where
  "ge a b = (if a = NaN \<or> b = NaN then False else \<not> lt a b)"

text \<open>\<open>Math.min(...xs)\<close> and \<open>Math.max(...xs)\<close>: each argument is converted to a number, a
  \<open>NaN\<close> makes the result \<open>NaN\<close>, and the scan starts from the infinity.\<close>

definition Math_min :: "int option list \<Rightarrow> number" where
  "Math_min xs =
     foldl (\<lambda>lowest x. if lowest = NaN \<or> x = NaN then NaN
                         else if lt x lowest then x else lowest)
       PosInfinity (map ToNumber xs)"

definition Math_max :: "int option list \<Rightarrow> number" where
  "Math_max xs =
     foldl (\<lambda>highest x. if highest = NaN \<or> x = NaN then NaN
                          else if lt highest x then x else highest)
       NegInfinity (map ToNumber xs)"

subsection \<open>Numbers inside template strings\<close>

text \<open>
  \<open>Number.isSafeInteger\<close>: the integers from \<open>-(2^53 - 1)\<close> to \<open>2^53 - 1\<close>. On these
  \<open>width - 1\<close> is exact and the text of a number is its decimal expansion.
\<close>

definition Number_isSafeInteger :: "int \<Rightarrow> bool" where
  "Number_isSafeInteger w \<longleftrightarrow> - (2 ^ 53 - 1) \<le> w \<and> w \<le> 2 ^ 53 - 1"

text \<open>
  A safe integer is written in decimal, with a leading \<open>-\<close> when it is negative. The
  functions below are the source's template strings on safe integers only.
\<close>

definition digit :: "nat \<Rightarrow> char" where
  "digit d = ''0123456789'' ! d"

fun show_nat :: "nat \<Rightarrow> string" where
  "show_nat n = (if n < 10 then [digit n] else show_nat (n div 10) @ [digit (n mod 10)])"

declare show_nat.simps [simp del]

definition show_int :: "int \<Rightarrow> string" where
  "show_int i = (if i < 0 then ''-'' @ show_nat (nat (- i)) else show_nat (nat i))"

text \<open>\<open>${n}\<close> for a number \<open>n\<close>.\<close>

fun Number_toString :: "number \<Rightarrow> string" where
  "Number_toString (Finite i) = show_int i"
| "Number_toString NaN = ''NaN''"
| "Number_toString PosInfinity = ''Infinity''"
| "Number_toString NegInfinity = ''-Infinity''"

text \<open>\<open>${width}\<close> for the result of a width lookup.\<close>

fun String_of :: "int option \<Rightarrow> string" where
  "String_of None = ''undefined''"
| "String_of (Some w) = show_int w"

text \<open>\<open>width - 1\<close> for the result of a width lookup.\<close>

fun minus_one :: "int option \<Rightarrow> number" where
  "minus_one None = NaN"
| "minus_one (Some w) = Finite (w - 1)"

subsection \<open>Arrays\<close>

text \<open>\<open>xs.indexOf(x)\<close>: the first index of \<open>x\<close>, or \<open>-1\<close>.\<close>

fun indexOf :: "'a list \<Rightarrow> 'a \<Rightarrow> int" where
  "indexOf [] x = - 1"
| "indexOf (y # ys) x =
     (if y = x then 0 else (let i = indexOf ys x in if i < 0 then - 1 else i + 1))"

text \<open>\<open>xs[i]\<close>: \<open>undefined\<close> outside the array.\<close>

definition at_index :: "'a list \<Rightarrow> int \<Rightarrow> 'a option" where
  "at_index xs i = (if 0 \<le> i \<and> i < int (length xs) then Some (xs ! nat i) else None)"

text \<open>Truthiness of a string that may be \<open>undefined\<close>: the empty string is falsy too.\<close>

fun truthy :: "string option \<Rightarrow> bool" where
  "truthy None = False"
| "truthy (Some s) = (s \<noteq> [])"

text \<open>
  \<open>Array.prototype.sort\<close> belongs to the host. It is modelled as the stable insertion sort
  that places each element before the first one the comparator puts it in front of, which
  is what a binary insertion on a sorted prefix does.
\<close>

fun insert_by :: "('a \<Rightarrow> 'a \<Rightarrow> int) \<Rightarrow> 'a \<Rightarrow> 'a list \<Rightarrow> 'a list" where
  "insert_by cmp x [] = [x]"
| "insert_by cmp x (y # ys) = (if cmp x y < 0 then x # y # ys else y # insert_by cmp x ys)"

definition sort_by :: "('a \<Rightarrow> 'a \<Rightarrow> int) \<Rightarrow> 'a list \<Rightarrow> 'a list" where
  "sort_by cmp xs = foldl (\<lambda>acc x. insert_by cmp x acc) [] xs"

section \<open>Directives\<close>

text \<open>
  Modelled from the spec: the interface \<open>MediaBreakpointProps\<close> of \<open>Media\<close> is not among the
  sources. A directive value is an object with the optional properties \<open>at\<close>, \<open>lessThan\<close>,
  \<open>greaterThan\<close>, \<open>greaterThanOrEqual\<close> (a breakpoint name each) and \<open>between\<close> (a pair of
  names). It is the list of its populated properties, in the order of its keys.
\<close>

datatype property =
    At string
  | LessThan string
  | GreaterThan string
  | GreaterThanOrEqual string
  | Between string string

type_synonym MediaBreakpointProps = "property list"

text \<open>The property reads \<open>breakpointProps.at\<close> of the source.\<close>

fun get_at :: "MediaBreakpointProps \<Rightarrow> string option" where
  "get_at [] = None"
| "get_at (At b # ps) = Some b"
| "get_at (_ # ps) = get_at ps"

text \<open>
  Modelled from the spec: \<open>propKey\<close> of \<open>Utils\<close> is not among the sources. A directive has
  exactly one populated kind and \<open>propKey\<close> names it: the model yields the first populated
  property of the object, the kind with the operand stored under it, and nothing for an
  object without properties.
\<close>

fun propKey :: "MediaBreakpointProps \<Rightarrow> property option" where
  "propKey [] = None"
| "propKey (p # ps) = Some p"

text \<open>The elements of \<open>forBreakpoints\<close>: \<open>string | [string, string]\<close>.\<close>

datatype operand = Name string | Tuple string string

fun breakpointKey :: "operand \<Rightarrow> string" where
  "breakpointKey (Tuple b1 b2) = b1 @ ''-'' @ b2"
| "breakpointKey (Name b) = b"

text \<open>The key and the value of the one property of a directive \<open>{[key]: breakpoint}\<close>.\<close>

fun propertyKey :: "property \<Rightarrow> string" where
  "propertyKey (At b) = ''at''"
| "propertyKey (LessThan b) = ''lessThan''"
| "propertyKey (GreaterThan b) = ''greaterThan''"
| "propertyKey (GreaterThanOrEqual b) = ''greaterThanOrEqual''"
| "propertyKey (Between b1 b2) = ''between''"

fun propertyValue :: "property \<Rightarrow> operand" where
  "propertyValue (At b) = Name b"
| "propertyValue (LessThan b) = Name b"
| "propertyValue (GreaterThan b) = Name b"
| "propertyValue (GreaterThanOrEqual b) = Name b"
| "propertyValue (Between b1 b2) = Tuple b1 b2"

section \<open>The class Breakpoints\<close>

datatype error =
    Error string
  | UnexpectedBreakpointProps MediaBreakpointProps

text \<open>
  \<open>Error m\<close> is \<open>new Error(m)\<close>; \<open>UnexpectedBreakpointProps p\<close> is the error whose message is
  \<open>Unexpected breakpoint props: \<close> followed by the JSON text of \<open>p\<close>.

  The object \<open>breakpoints\<close> is the list of its entries in key order, and a
  \<open>Map<string, string>\<close> is the list of its entries in insertion order: \<open>set\<close> on a key
  that is present replaces the value where it stands, as \<open>AList.update\<close> does.
\<close>

record Breakpoints =
  sortedBreakpoints :: "string list"
  breakpoints :: "(string \<times> int) list"
  mediaQueries :: "(string \<times> (string \<times> string) list) list"

text \<open>
  The property names that an object written as a literal inherits from \<open>Object.prototype\<close>.
  Reading one of them from the breakpoint set yields the inherited value, not \<open>undefined\<close>,
  unless the set holds the name itself.
\<close>

definition Object_prototype_names :: "string list" where
  "Object_prototype_names =
     [''constructor'', ''__defineGetter__'', ''__defineSetter__'', ''hasOwnProperty'',
      ''__lookupGetter__'', ''__lookupSetter__'', ''isPrototypeOf'', ''propertyIsEnumerable'',
      ''toString'', ''valueOf'', ''__proto__'', ''toLocaleString'']"

text \<open>
  \<open>this._breakpoints[name]\<close>: the width stored under \<open>name\<close>, or \<open>undefined\<close>. This is the
  source's lookup for every name the set holds and for every absent name outside
  \<open>Object_prototype_names\<close>; a statement about an absent name carries that hypothesis.
\<close>

definition width_of :: "Breakpoints \<Rightarrow> string \<Rightarrow> int option" where
  "width_of this name = map_of (breakpoints this) name"

definition validKeys :: "string list" where
  "validKeys = [''at'', ''lessThan'', ''greaterThan'', ''greaterThanOrEqual'', ''between'']"

definition getMediaQueryTypes :: "Breakpoints \<Rightarrow> string list" where
  "getMediaQueryTypes this = sortedBreakpoints this"

definition getLargestBreakpoint :: "Breakpoints \<Rightarrow> string option" where
  "getLargestBreakpoint this =
     at_index (sortedBreakpoints this) (int (length (sortedBreakpoints this)) - 1)"

definition findNextBreakpoint :: "Breakpoints \<Rightarrow> string \<Rightarrow> error + string" where
  "findNextBreakpoint this breakpoint =
     (let nextBreakpoint =
            at_index (sortedBreakpoints this) (indexOf (sortedBreakpoints this) breakpoint + 1)
      in if \<not> truthy nextBreakpoint
         then Inl (Error (''There is no breakpoint larger than '' @ breakpoint))
         else (case nextBreakpoint of Some n \<Rightarrow> Inr n
               | None \<Rightarrow> Inl (Error (''There is no breakpoint larger than '' @ breakpoint))))"

definition normalizeProps :: "Breakpoints \<Rightarrow> MediaBreakpointProps \<Rightarrow> MediaBreakpointProps" where
  "normalizeProps this breakpointProps =
     (if truthy (get_at breakpointProps) then
        (case get_at breakpointProps of
           None \<Rightarrow> breakpointProps
         | Some a \<Rightarrow>
             (let fromIndex = indexOf (sortedBreakpoints this) a;
                  to = at_index (sortedBreakpoints this) (fromIndex + 1)
              in if truthy to
                 then (case to of Some t \<Rightarrow> [Between a t] | None \<Rightarrow> [GreaterThanOrEqual a])
                 else [GreaterThanOrEqual a]))
      else breakpointProps)"

definition createBreakpointQuery :: "Breakpoints \<Rightarrow> MediaBreakpointProps \<Rightarrow> error + string" where
  "createBreakpointQuery this breakpointProps0 =
     (let breakpointProps = normalizeProps this breakpointProps0 in
      case propKey breakpointProps of
        Some (LessThan b) \<Rightarrow>
          (let width = width_of this b
           in Inr (''(max-width:'' @ Number_toString (minus_one width) @ ''px)''))
      | Some (GreaterThan b) \<Rightarrow>
          (case findNextBreakpoint this b of
             Inl e \<Rightarrow> Inl e
           | Inr n \<Rightarrow>
               (let width = width_of this n
                in Inr (''(min-width:'' @ String_of width @ ''px)'')))
      | Some (GreaterThanOrEqual b) \<Rightarrow>
          (let width = width_of this b
           in Inr (''(min-width:'' @ String_of width @ ''px)''))
      | Some (Between b1 b2) \<Rightarrow>
          (let fromWidth = width_of this b1;
               toWidth = width_of this b2
           in Inr (''(min-width:'' @ String_of fromWidth @ ''px) and (max-width:''
                     @ Number_toString (minus_one toWidth) @ ''px)''))
      | _ \<Rightarrow> Inl (UnexpectedBreakpointProps breakpointProps))"

text \<open>
  \<open>shouldRenderMediaQuery\<close> has no default case: a directive that matches none of the four
  cases falls out of the switch and the call returns \<open>undefined\<close>, written \<open>None\<close>.
\<close>

definition shouldRenderMediaQuery ::
  "Breakpoints \<Rightarrow> MediaBreakpointProps \<Rightarrow> string list \<Rightarrow> error + bool option" where
  "shouldRenderMediaQuery this breakpointProps0 onlyRenderAt =
     (let breakpointProps = normalizeProps this breakpointProps0 in
      case propKey breakpointProps of
        Some (LessThan b) \<Rightarrow>
          (let width = width_of this b;
               lowestAllowedWidth = Math_min (map (width_of this) onlyRenderAt)
           in Inr (Some (lt lowestAllowedWidth (ToNumber width))))
      | Some (GreaterThan b) \<Rightarrow>
          (case findNextBreakpoint this b of
             Inl e \<Rightarrow> Inl e
           | Inr n \<Rightarrow>
               (let width = width_of this n;
                    highestAllowedWidth = Math_max (map (width_of this) onlyRenderAt)
                in Inr (Some (ge highestAllowedWidth (ToNumber width)))))
      | Some (GreaterThanOrEqual b) \<Rightarrow>
          (let width = width_of this b;
               highestAllowedWidth = Math_max (map (width_of this) onlyRenderAt)
           in Inr (Some (ge highestAllowedWidth (ToNumber width))))
      | Some (Between b1 b2) \<Rightarrow>
          (let fromWidth = width_of this b1;
               toWidth = width_of this b2;
               allowedWidths = map (width_of this) onlyRenderAt
           in Inr (Some (\<not> (lt (Math_max allowedWidths) (ToNumber fromWidth)
                             \<or> ge (Math_min allowedWidths) (ToNumber toWidth)))))
      | _ \<Rightarrow> Inr None)"

text \<open>
  \<open>_createBreakpointQueries(key, forBreakpoints)\<close>. The computed property \<open>{[key]: breakpoint}\<close>
  is the function \<open>mk\<close> that builds the one-property directive of kind \<open>key\<close>, and \<open>alt\<close> says
  which alternative of \<open>string | [string, string]\<close> the elements of \<open>forBreakpoints\<close> are.
  An error of \<open>_createBreakpointQuery\<close> ends the reduction.
\<close>

definition createBreakpointQueries ::
  "Breakpoints \<Rightarrow> ('a \<Rightarrow> property) \<Rightarrow> ('a \<Rightarrow> operand) \<Rightarrow> 'a list \<Rightarrow> error + (string \<times> string) list" where
  "createBreakpointQueries this mk alt forBreakpoints =
     foldl (\<lambda>acc breakpoint.
              case acc of
                Inl e \<Rightarrow> Inl e
              | Inr m \<Rightarrow>
                  (case createBreakpointQuery this [mk breakpoint] of
                     Inl e \<Rightarrow> Inl e
                   | Inr q \<Rightarrow> Inr (AList.update (breakpointKey (alt breakpoint)) q m)))
       (Inr []) forBreakpoints"

text \<open>The comparator of the constructor: \<open>(a, b) => (a[1] < b[1] ? -1 : 1)\<close>.\<close>

definition compare_width :: "string \<times> int \<Rightarrow> string \<times> int \<Rightarrow> int" where
  "compare_width a b = (if snd a < snd b then - 1 else 1)"

text \<open>
  \<open>Object.keys(breakpoints).map(b => [b, breakpoints[b]])\<close> is the list of the entries of the
  object, that is, the list \<open>bps\<close> itself.
\<close>

definition sortBreakpoints :: "(string \<times> int) list \<Rightarrow> string list" where
  "sortBreakpoints bps = map fst (sort_by compare_width bps)"

definition betweenCombinations :: "string list \<Rightarrow> (string \<times> string) list" where
  "betweenCombinations sortedBps =
     foldl (\<lambda>acc (b1, i). acc @ map (\<lambda>b2. (b1, b2)) (drop (i + 1) sortedBps))
       [] (zip (butlast sortedBps) [0 ..< length (butlast sortedBps)])"

text \<open>
  The constructor. The methods it calls read \<open>_sortedBreakpoints\<close> and \<open>_breakpoints\<close> only,
  so \<open>_mediaQueries\<close>, not yet assigned at that point, is the empty list in \<open>this\<close>.
\<close>

definition "constructor" :: "(string \<times> int) list \<Rightarrow> error + Breakpoints" where
  "constructor bps =
     (let sortedBps = sortBreakpoints bps;
          this = \<lparr> sortedBreakpoints = sortedBps, breakpoints = bps, mediaQueries = [] \<rparr>
      in
      case createBreakpointQueries this At Name sortedBps of
        Inl e \<Rightarrow> Inl e
      | Inr atQueries \<Rightarrow>
      (case createBreakpointQueries this LessThan Name (tl sortedBps) of
        Inl e \<Rightarrow> Inl e
      | Inr lessThanQueries \<Rightarrow>
      (case createBreakpointQueries this GreaterThan Name (butlast sortedBps) of
        Inl e \<Rightarrow> Inl e
      | Inr greaterThanQueries \<Rightarrow>
      (case createBreakpointQueries this GreaterThanOrEqual Name sortedBps of
        Inl e \<Rightarrow> Inl e
      | Inr greaterThanOrEqualQueries \<Rightarrow>
      (case createBreakpointQueries this (\<lambda>(b1, b2). Between b1 b2) (\<lambda>(b1, b2). Tuple b1 b2)
              (betweenCombinations sortedBps) of
        Inl e \<Rightarrow> Inl e
      | Inr betweenQueries \<Rightarrow>
          Inr (this \<lparr> mediaQueries :=
                 [(''at'', atQueries), (''lessThan'', lessThanQueries), (''greaterThan'', greaterThanQueries),
                  (''greaterThanOrEqual'', greaterThanOrEqualQueries), (''between'', betweenQueries)] \<rparr>))))))"

text \<open>
  \<open>toRuleSets\<close>. The functions \<open>createRuleSet\<close> and \<open>createClassName\<close> of \<open>Utils\<close> are not
  among the sources and are parameters; the body handed to \<open>createRuleSet\<close> is the template
  string of the source.
\<close>

definition toRuleSets ::
  "(string \<Rightarrow> string \<Rightarrow> 'c) \<Rightarrow> ('c \<Rightarrow> string \<Rightarrow> 'r) \<Rightarrow> Breakpoints \<Rightarrow> 'r list" where
  "toRuleSets createClassName createRuleSet this =
     foldl (\<lambda>acc (type, queries).
              foldl (\<lambda>acc (breakpoint, query).
                       acc @ [createRuleSet (createClassName type breakpoint)
                                (''not all and '' @ query)])
                acc queries)
       [] (mediaQueries this)"

section \<open>The breakpoint set of the running example\<close>

definition example_breakpoints :: "(string \<times> int) list" where
  "example_breakpoints = [(''sm'', 0), (''md'', 768), (''lg'', 1024)]"

definition example_queries :: "(string \<times> (string \<times> string) list) list" where
  "example_queries =
          [(''at'',
            [(''sm'', ''(min-width:0px) and (max-width:767px)''),
             (''md'', ''(min-width:768px) and (max-width:1023px)''),
             (''lg'', ''(min-width:1024px)'')]),
           (''lessThan'',
            [(''md'', ''(max-width:767px)''),
             (''lg'', ''(max-width:1023px)'')]),
           (''greaterThan'',
            [(''sm'', ''(min-width:768px)''),
             (''md'', ''(min-width:1024px)'')]),
           (''greaterThanOrEqual'',
            [(''sm'', ''(min-width:0px)''), (''md'', ''(min-width:768px)''),
             (''lg'', ''(min-width:1024px)'')]),
           (''between'',
            [(''sm-md'', ''(min-width:0px) and (max-width:767px)''),
             (''sm-lg'', ''(min-width:0px) and (max-width:1023px)''),
             (''md-lg'', ''(min-width:768px) and (max-width:1023px)'')])]"

definition example_instance :: Breakpoints where
  "example_instance = \<lparr> sortedBreakpoints = [''sm'', ''md'', ''lg''],
        breakpoints = example_breakpoints, mediaQueries = example_queries\<rparr>"




section \<open>Auxiliary facts\<close>

lemma constructor_fields:
  "constructor bps = Inr this \<Longrightarrow> sortedBreakpoints this = sortBreakpoints bps \<and> breakpoints this = bps"
  by (auto simp: constructor_def Let_def split: sum.splits)

lemma set_insert_by: "set (insert_by cmp x xs) = insert x (set xs)"
  by (induction xs) auto

lemma length_insert_by: "length (insert_by cmp x xs) = Suc (length xs)"
  by (induction xs) auto

lemma distinct_map_insert_by:
  "distinct (map f (insert_by cmp x xs)) = (f x \<notin> f ` set xs \<and> distinct (map f xs))"
  by (induction xs) (auto simp: set_insert_by)

lemma ascending_insert_by:
  "sorted_wrt (\<lambda>a b. snd a < snd b) xs \<Longrightarrow> snd x \<notin> snd ` set xs \<Longrightarrow>
   sorted_wrt (\<lambda>a b. snd a < snd b) (insert_by compare_width x xs)"
proof (induction xs)
  case Nil
  then show ?case by simp
next
  case (Cons y ys)
  show ?case
  proof (cases "snd x < snd y")
    case True
    with Cons.prems show ?thesis
      by (auto simp: compare_width_def)
  next
    case False
    with Cons.prems have "snd y < snd x"
      by (cases x; cases y) force
    with Cons False show ?thesis
      by (auto simp: compare_width_def set_insert_by)
  qed
qed

lemma foldl_insert_by_set:
  "set (foldl (\<lambda>acc x. insert_by cmp x acc) acc xs) = set acc \<union> set xs"
  by (induction xs arbitrary: acc) (auto simp: set_insert_by)

lemma foldl_insert_by_length:
  "length (foldl (\<lambda>acc x. insert_by cmp x acc) acc xs) = length acc + length xs"
  by (induction xs arbitrary: acc) (auto simp: length_insert_by)

lemma foldl_insert_by_distinct:
  "distinct (map fst (acc @ xs)) \<Longrightarrow>
   distinct (map fst (foldl (\<lambda>acc x. insert_by cmp x acc) acc xs))"
proof (induction xs arbitrary: acc)
  case Nil
  then show ?case by simp
next
  case (Cons x xs)
  have "distinct (map fst (insert_by cmp x acc @ xs))"
    using Cons.prems by (auto simp: distinct_map_insert_by set_insert_by)
  then show ?case using Cons.IH by simp
qed

lemma foldl_insert_by_ascending:
  "sorted_wrt (\<lambda>a b. snd a < snd b) acc \<Longrightarrow> distinct (map snd (acc @ xs)) \<Longrightarrow>
   sorted_wrt (\<lambda>a b. snd a < snd b) (foldl (\<lambda>acc x. insert_by compare_width x acc) acc xs)"
proof (induction xs arbitrary: acc)
  case Nil
  then show ?case by simp
next
  case (Cons x xs)
  have 1: "sorted_wrt (\<lambda>a b. snd a < snd b) (insert_by compare_width x acc)"
    using Cons.prems by (intro ascending_insert_by) auto
  have 2: "distinct (map snd (insert_by compare_width x acc @ xs))"
    using Cons.prems by (auto simp: distinct_map_insert_by set_insert_by)
  show ?case using Cons.IH[OF 1 2] by simp
qed

lemma sortBreakpoints_set: "set (sortBreakpoints bps) = fst ` set bps"
  by (simp add: sortBreakpoints_def sort_by_def foldl_insert_by_set)

lemma sortBreakpoints_length: "length (sortBreakpoints bps) = length bps"
  by (simp add: sortBreakpoints_def sort_by_def foldl_insert_by_length)

lemma sortBreakpoints_distinct:
  "distinct (map fst bps) \<Longrightarrow> distinct (sortBreakpoints bps)"
  by (simp add: sortBreakpoints_def sort_by_def foldl_insert_by_distinct)

lemma sort_by_ascending:
  "distinct (map snd bps) \<Longrightarrow>
   sorted_wrt (\<lambda>a b. snd a < snd b) (sort_by compare_width bps)"
  unfolding sort_by_def by (rule foldl_insert_by_ascending) simp_all

lemma sortBreakpoints_ascending:
  assumes "distinct (map fst bps)" and "distinct (map snd bps)"
  shows "sorted_wrt (\<lambda>a b. \<exists>wa wb. map_of bps a = Some wa \<and> map_of bps b = Some wb \<and> wa < wb)
           (sortBreakpoints bps)"
proof -
  let ?xs = "sort_by compare_width bps"
  have mem: "set ?xs = set bps"
    by (simp add: sort_by_def foldl_insert_by_set)
  have look: "map_of bps (fst p) = Some (snd p)" if "p \<in> set ?xs" for p
  proof -
    from that mem have "(fst p, snd p) \<in> set bps" by simp
    with assms(1) show ?thesis by (simp only: map_of_eq_Some_iff)
  qed
  have "sorted_wrt (\<lambda>a b. snd a < snd b) ?xs"
    using assms(2) by (rule sort_by_ascending)
  then have "sorted_wrt (\<lambda>a b. \<exists>wa wb. map_of bps (fst a) = Some wa
                 \<and> map_of bps (fst b) = Some wb \<and> wa < wb) ?xs"
    by (rule sorted_wrt_mono_rel[rotated]) (auto simp: look)
  then show ?thesis
    by (simp add: sortBreakpoints_def sorted_wrt_map)
qed

lemma example_sorted: "sortBreakpoints example_breakpoints = [''sm'', ''md'', ''lg'']"
  by code_simp

lemma example_constructor: "constructor example_breakpoints = Inr example_instance"
  by code_simp

lemma indexOf_ge: "- 1 \<le> indexOf xs x"
  by (induction xs) (auto simp: Let_def)

lemma indexOf_notin: "x \<notin> set xs \<Longrightarrow> indexOf xs x = - 1"
  by (induction xs) (auto simp: Let_def)

lemma indexOf_nth: "distinct xs \<Longrightarrow> i < length xs \<Longrightarrow> indexOf xs (xs ! i) = int i"
proof (induction xs arbitrary: i)
  case Nil
  then show ?case by simp
next
  case (Cons y ys)
  show ?case
  proof (cases i)
    case 0
    then show ?thesis by simp
  next
    case (Suc k)
    with Cons.prems have k: "k < length ys" and ne: "ys ! k \<noteq> y" and d: "distinct ys"
      by auto
    from Cons.IH[OF d k] Suc ne show ?thesis
      by (simp add: Let_def)
  qed
qed

lemma at_index_Suc:
  "Suc i < length xs \<Longrightarrow> at_index xs (int i + 1) = Some (xs ! Suc i)"
  by (simp add: at_index_def nat_add_distrib)

lemma at_index_length: "at_index xs (int (length xs)) = None"
  by (simp add: at_index_def)

lemma at_index_zero: "at_index xs 0 = (case xs of [] \<Rightarrow> None | x # _ \<Rightarrow> Some x)"
  by (cases xs) (simp_all add: at_index_def)

lemma findNextBreakpoint_next:
  assumes "distinct (sortedBreakpoints this)" and "[] \<notin> set (sortedBreakpoints this)"
    and "Suc i < length (sortedBreakpoints this)"
  shows "findNextBreakpoint this (sortedBreakpoints this ! i) = Inr (sortedBreakpoints this ! Suc i)"
proof -
  have "sortedBreakpoints this ! Suc i \<in> set (sortedBreakpoints this)"
    using assms(3) by (rule nth_mem)
  with assms(2) have "sortedBreakpoints this ! Suc i \<noteq> []" by metis
  then show ?thesis
    using assms(1,3) by (simp add: findNextBreakpoint_def indexOf_nth at_index_Suc)
qed

lemma getLargestBreakpoint_Some:
  "getLargestBreakpoint this = Some b \<longleftrightarrow>
     sortedBreakpoints this \<noteq> [] \<and> b = sortedBreakpoints this ! (length (sortedBreakpoints this) - 1)"
proof -
  have "nat (int n - 1) = n - 1" for n :: nat by linarith
  then show ?thesis
    by (auto simp: getLargestBreakpoint_def at_index_def)
qed

lemma findNextBreakpoint_last:
  assumes "distinct (sortedBreakpoints this)" and "getLargestBreakpoint this = Some b"
  shows "findNextBreakpoint this b = Inl (Error (''There is no breakpoint larger than '' @ b))"
proof -
  let ?xs = "sortedBreakpoints this"
  from assms(2) have ne: "?xs \<noteq> []" and b: "b = ?xs ! (length ?xs - 1)"
    by (simp_all add: getLargestBreakpoint_Some)
  have "indexOf ?xs b = int (length ?xs - 1)"
    unfolding b using assms(1) ne by (intro indexOf_nth) simp_all
  with ne have "indexOf ?xs b + 1 = int (length ?xs)"
    by (cases ?xs) simp_all
  then show ?thesis
    by (simp add: findNextBreakpoint_def at_index_length)
qed

lemma normalizeProps_no_at: "get_at ps = None \<Longrightarrow> normalizeProps this ps = ps"
  by (simp add: normalizeProps_def)

lemma normalizeProps_at_next:
  assumes "distinct (sortedBreakpoints this)" and "[] \<notin> set (sortedBreakpoints this)"
    and "Suc i < length (sortedBreakpoints this)" and "get_at ps = Some (sortedBreakpoints this ! i)"
  shows "normalizeProps this ps
           = [Between (sortedBreakpoints this ! i) (sortedBreakpoints this ! Suc i)]"
proof -
  have "sortedBreakpoints this ! Suc i \<in> set (sortedBreakpoints this)"
    and "sortedBreakpoints this ! i \<in> set (sortedBreakpoints this)"
    using assms(3) by simp_all
  with assms(2) have "sortedBreakpoints this ! Suc i \<noteq> []" "sortedBreakpoints this ! i \<noteq> []"
    by metis+
  then show ?thesis
    using assms(1,3,4) by (simp add: normalizeProps_def indexOf_nth at_index_Suc Let_def)
qed

lemma normalizeProps_at_last:
  assumes "distinct (sortedBreakpoints this)" and "[] \<notin> set (sortedBreakpoints this)"
    and "getLargestBreakpoint this = Some b" and "get_at ps = Some b"
  shows "normalizeProps this ps = [GreaterThanOrEqual b]"
proof -
  let ?xs = "sortedBreakpoints this"
  from assms(3) have ne: "?xs \<noteq> []" and b: "b = ?xs ! (length ?xs - 1)"
    by (simp_all add: getLargestBreakpoint_Some)
  have "b \<in> set ?xs" unfolding b using ne by simp
  with assms(2) have "b \<noteq> []" by metis
  moreover have "indexOf ?xs b = int (length ?xs - 1)"
    unfolding b using assms(1) ne by (intro indexOf_nth) simp_all
  with ne have "indexOf ?xs b + 1 = int (length ?xs)"
    by (cases ?xs) simp_all
  ultimately show ?thesis
    using assms(4) by (simp add: normalizeProps_def at_index_length Let_def)
qed

lemma normalizeProps_idem: "normalizeProps this (normalizeProps this ps) = normalizeProps this ps"
  by (auto simp: normalizeProps_def Let_def split: option.splits)

lemma createBreakpointQuery_normalized:
  "createBreakpointQuery this (normalizeProps this ps) = createBreakpointQuery this ps"
  by (simp add: createBreakpointQuery_def normalizeProps_idem)

lemma shouldRenderMediaQuery_normalized:
  "shouldRenderMediaQuery this (normalizeProps this ps) onlyRenderAt
     = shouldRenderMediaQuery this ps onlyRenderAt"
  by (simp add: shouldRenderMediaQuery_def normalizeProps_idem)

lemma createBreakpointQuery_mediaQueries:
  "createBreakpointQuery (this\<lparr>mediaQueries := m\<rparr>) ps = createBreakpointQuery this ps"
proof -
  have n: "normalizeProps (this\<lparr>mediaQueries := m\<rparr>) = normalizeProps this"
    by (rule ext) (simp add: normalizeProps_def split: option.splits)
  have f: "findNextBreakpoint (this\<lparr>mediaQueries := m\<rparr>) = findNextBreakpoint this"
    by (rule ext) (simp add: findNextBreakpoint_def)
  have w: "width_of (this\<lparr>mediaQueries := m\<rparr>) = width_of this"
    by (rule ext) (simp add: width_of_def)
  show ?thesis
    by (simp only: createBreakpointQuery_def n f w)
qed

lemma createBreakpointQuery_empty_at:
  "createBreakpointQuery this [At []] = Inl (UnexpectedBreakpointProps [At []])"
  by (simp add: createBreakpointQuery_def normalizeProps_def)

lemma foldl_queries_Inl:
  "foldl (\<lambda>acc breakpoint.
            case acc of
              Inl e \<Rightarrow> Inl e
            | Inr m \<Rightarrow>
                (case createBreakpointQuery this [mk breakpoint] of
                   Inl e \<Rightarrow> Inl e
                 | Inr q \<Rightarrow> Inr (AList.update (breakpointKey (alt breakpoint)) q m)))
     (Inl e) xs = Inl e"
  by (induction xs) simp_all

lemma foldl_queries_Inr:
  "foldl (\<lambda>acc breakpoint.
            case acc of
              Inl e \<Rightarrow> Inl e
            | Inr m \<Rightarrow>
                (case createBreakpointQuery this [mk breakpoint] of
                   Inl e \<Rightarrow> Inl e
                 | Inr q \<Rightarrow> Inr (AList.update (breakpointKey (alt breakpoint)) q m)))
     (Inr m0) xs = Inr m \<Longrightarrow> x \<in> set xs \<Longrightarrow> \<exists>q. createBreakpointQuery this [mk x] = Inr q"
proof (induction xs arbitrary: m0)
  case Nil
  then show ?case by simp
next
  case (Cons y ys)
  show ?case
  proof (cases "createBreakpointQuery this [mk y]")
    case (Inl e)
    with Cons.prems(1) show ?thesis by (simp add: foldl_queries_Inl)
  next
    case (Inr q)
    with Cons show ?thesis by auto
  qed
qed

lemma createBreakpointQueries_Inr:
  "createBreakpointQueries this mk alt xs = Inr m \<Longrightarrow> x \<in> set xs \<Longrightarrow>
   \<exists>q. createBreakpointQuery this [mk x] = Inr q"
  unfolding createBreakpointQueries_def by (rule foldl_queries_Inr)

lemma constructor_names_nonempty:
  assumes "constructor bps = Inr this"
  shows "[] \<notin> set (sortedBreakpoints this)"
proof
  assume mem: "[] \<in> set (sortedBreakpoints this)"
  let ?init = "\<lparr> sortedBreakpoints = sortBreakpoints bps, breakpoints = bps, mediaQueries = [] \<rparr>"
  from assms obtain m where
    "createBreakpointQueries ?init At Name (sortBreakpoints bps) = Inr m"
    by (auto simp: constructor_def Let_def split: sum.splits)
  moreover from mem assms have "[] \<in> set (sortBreakpoints bps)"
    by (simp add: constructor_fields)
  ultimately obtain q where "createBreakpointQuery ?init [At []] = Inr q"
    using createBreakpointQueries_Inr [of ?init At Name "sortBreakpoints bps" m "[]"] by blast
  then show False by (simp add: createBreakpointQuery_empty_at)
qed

lemma constructor_names_distinct:
  "distinct (map fst bps) \<Longrightarrow> constructor bps = Inr this \<Longrightarrow> distinct (sortedBreakpoints this)"
  by (simp add: constructor_fields sortBreakpoints_distinct)

lemma constructor_width_of:
  "constructor bps = Inr this \<Longrightarrow> width_of this b = map_of bps b"
  by (simp add: width_of_def constructor_fields)

lemma example_show_int: "show_int 1023 = ''1023''" "show_int 768 = ''768''" "show_int 0 = ''0''"
  "show_int 1024 = ''1024''" "show_int 767 = ''767''"
  by code_simp+

lemma foldl_min_Finite:
  "foldl (\<lambda>lowest x. if lowest = NaN \<or> x = NaN then NaN
                      else if lt x lowest then x else lowest)
     (Finite a) (map ToNumber (map Some ws)) = Finite (fold min ws a)"
  by (induction ws arbitrary: a) (simp_all add: min_def)

lemma foldl_max_Finite:
  "foldl (\<lambda>highest x. if highest = NaN \<or> x = NaN then NaN
                       else if lt highest x then x else highest)
     (Finite a) (map ToNumber (map Some ws)) = Finite (fold max ws a)"
  by (induction ws arbitrary: a) (simp_all add: max_def)

lemma Math_min_known: "ws \<noteq> [] \<Longrightarrow> Math_min (map Some ws) = Finite (Min (set ws))"
proof (cases ws)
  case Nil
  assume "ws \<noteq> []" with Nil show ?thesis by simp
next
  case (Cons w ws')
  have "Math_min (map Some ws) = Finite (fold min ws' w)"
    unfolding Cons Math_min_def using foldl_min_Finite [of w ws'] by simp
  moreover have "Min (set ws) = fold min ws' w"
    unfolding Cons by (rule Min.set_eq_fold)
  ultimately show ?thesis by simp
qed

lemma Math_max_known: "ws \<noteq> [] \<Longrightarrow> Math_max (map Some ws) = Finite (Max (set ws))"
proof (cases ws)
  case Nil
  assume "ws \<noteq> []" with Nil show ?thesis by simp
next
  case (Cons w ws')
  have "Math_max (map Some ws) = Finite (fold max ws' w)"
    unfolding Cons Math_max_def using foldl_max_Finite [of w ws'] by simp
  moreover have "Max (set ws) = fold max ws' w"
    unfolding Cons by (rule Max.set_eq_fold)
  ultimately show ?thesis by simp
qed

lemma Math_min_empty: "Math_min [] = PosInfinity"
  by (simp add: Math_min_def)

lemma Math_max_empty: "Math_max [] = NegInfinity"
  by (simp add: Math_max_def)

lemma at_index_mem: "at_index xs i = Some x \<Longrightarrow> x \<in> set xs"
  by (auto simp: at_index_def split: if_splits)

lemma normalizeProps_at_cases:
  "normalizeProps this [At b] = [At b] \<and> b = []
   \<or> normalizeProps this [At b] = [GreaterThanOrEqual b]
   \<or> (\<exists>t \<in> set (sortedBreakpoints this). normalizeProps this [At b] = [Between b t])"
  by (auto simp: normalizeProps_def Let_def dest: at_index_mem split: option.splits)

lemma shouldRender_empty_lessThan:
  "shouldRenderMediaQuery this [LessThan b] [] = Inr (Some False)"
  by (cases "width_of this b")
     (simp_all add: shouldRenderMediaQuery_def normalizeProps_no_at Math_min_empty)

lemma shouldRender_empty_greaterThanOrEqual:
  "shouldRenderMediaQuery this [GreaterThanOrEqual b] [] = Inr (Some False)"
  by (cases "width_of this b")
     (simp_all add: shouldRenderMediaQuery_def normalizeProps_no_at Math_max_empty ge_def)

lemma shouldRender_empty_between:
  "width_of this b1 = Some w1 \<Longrightarrow>
   shouldRenderMediaQuery this [Between b1 b2] [] = Inr (Some False)"
  by (simp add: shouldRenderMediaQuery_def normalizeProps_no_at Math_max_empty)

lemma foldl_push_queries:
  "foldl (\<lambda>acc (breakpoint, query). acc @ [f breakpoint query]) acc queries
     = acc @ map (\<lambda>(breakpoint, query). f breakpoint query) queries"
  by (induction queries arbitrary: acc) auto

lemma foldl_push_types:
  "foldl (\<lambda>acc (type, queries).
            foldl (\<lambda>acc (breakpoint, query). acc @ [f type breakpoint query]) acc queries)
     acc mqs
   = acc @ concat (map (\<lambda>(type, queries).
                          map (\<lambda>(breakpoint, query). f type breakpoint query) queries) mqs)"
  by (induction mqs arbitrary: acc) (auto simp: foldl_push_queries)

lemma constructor_types:
  "constructor bps = Inr this \<Longrightarrow> map fst (mediaQueries this) = validKeys"
  by (auto simp: constructor_def Let_def validKeys_def split: sum.splits)




lemma betweenCombinations_single: "betweenCombinations [x] = []"
  by (simp add: betweenCombinations_def)


















lemma set_update_cases:
  "(k', v') \<in> set (AList.update k v m) \<Longrightarrow> (k', v') = (k, v) \<or> (k', v') \<in> set m"
  by (induction m) (auto split: if_splits)

lemma foldl_queries_entries:
  "foldl (\<lambda>acc breakpoint.
            case acc of
              Inl e \<Rightarrow> Inl e
            | Inr m \<Rightarrow>
                (case createBreakpointQuery this [mk breakpoint] of
                   Inl e \<Rightarrow> Inl e
                 | Inr q \<Rightarrow> Inr (AList.update (breakpointKey (alt breakpoint)) q m)))
     (Inr m0) xs = Inr m \<Longrightarrow> (k, q) \<in> set m \<Longrightarrow>
   (k, q) \<in> set m0
   \<or> (\<exists>x \<in> set xs. k = breakpointKey (alt x) \<and> createBreakpointQuery this [mk x] = Inr q)"
proof (induction xs arbitrary: m0)
  case Nil
  then show ?case by simp
next
  case (Cons y ys)
  show ?case
  proof (cases "createBreakpointQuery this [mk y]")
    case (Inl e)
    with Cons.prems(1) show ?thesis by (simp add: foldl_queries_Inl)
  next
    case (Inr v)
    with Cons.prems(1) have
      "foldl (\<lambda>acc breakpoint.
            case acc of
              Inl e \<Rightarrow> Inl e
            | Inr m \<Rightarrow>
                (case createBreakpointQuery this [mk breakpoint] of
                   Inl e \<Rightarrow> Inl e
                 | Inr q \<Rightarrow> Inr (AList.update (breakpointKey (alt breakpoint)) q m)))
         (Inr (AList.update (breakpointKey (alt y)) v m0)) ys = Inr m"
      by simp
    from Cons.IH [OF this Cons.prems(2)] Inr set_update_cases [of k q "breakpointKey (alt y)" v m0]
    show ?thesis by auto
  qed
qed

lemma createBreakpointQueries_entries:
  "createBreakpointQueries this mk alt xs = Inr m \<Longrightarrow> (k, q) \<in> set m \<Longrightarrow>
   \<exists>x \<in> set xs. k = breakpointKey (alt x) \<and> createBreakpointQuery this [mk x] = Inr q"
  unfolding createBreakpointQueries_def
  using foldl_queries_entries [where ?m0.0 = "[]" and xs = xs and this = this and mk = mk
      and alt = alt and m = m and k = k and q = q]
  by simp

lemma constructor_unfold:
  assumes "constructor bps = Inr this"
  shows "\<exists>atQ ltQ gtQ geQ btQ.
      createBreakpointQueries \<lparr> sortedBreakpoints = sortBreakpoints bps, breakpoints = bps, mediaQueries = [] \<rparr> At Name (sortBreakpoints bps) = Inr atQ
    \<and> createBreakpointQueries \<lparr> sortedBreakpoints = sortBreakpoints bps, breakpoints = bps, mediaQueries = [] \<rparr> LessThan Name (tl (sortBreakpoints bps)) = Inr ltQ
    \<and> createBreakpointQueries \<lparr> sortedBreakpoints = sortBreakpoints bps, breakpoints = bps, mediaQueries = [] \<rparr> GreaterThan Name (butlast (sortBreakpoints bps)) = Inr gtQ
    \<and> createBreakpointQueries \<lparr> sortedBreakpoints = sortBreakpoints bps, breakpoints = bps, mediaQueries = [] \<rparr> GreaterThanOrEqual Name (sortBreakpoints bps) = Inr geQ
    \<and> createBreakpointQueries \<lparr> sortedBreakpoints = sortBreakpoints bps, breakpoints = bps, mediaQueries = [] \<rparr> (\<lambda>(b1, b2). Between b1 b2) (\<lambda>(b1, b2). Tuple b1 b2)
              (betweenCombinations (sortBreakpoints bps)) = Inr btQ
    \<and> this = \<lparr> sortedBreakpoints = sortBreakpoints bps, breakpoints = bps, mediaQueries =
                 [(''at'', atQ), (''lessThan'', ltQ), (''greaterThan'', gtQ),
                  (''greaterThanOrEqual'', geQ), (''between'', btQ)] \<rparr>"
  using assms unfolding constructor_def Let_def
  by (simp split: sum.splits)

lemma entries_of_kind:
  assumes "createBreakpointQueries init mk alt xs = Inr m" and "(k, q) \<in> set m"
    and "\<And>x. propertyKey (mk x) = type" and "\<And>x. propertyValue (mk x) = alt x"
    and "\<And>ps. createBreakpointQuery this ps = createBreakpointQuery init ps"
  shows "\<exists>p. propertyKey p = type \<and> breakpointKey (propertyValue p) = k
             \<and> createBreakpointQuery this [p] = Inr q"
proof -
  from createBreakpointQueries_entries [OF assms(1,2)] obtain x where
    "k = breakpointKey (alt x)" "createBreakpointQuery init [mk x] = Inr q"
    by blast
  with assms(3,4,5) have "propertyKey (mk x) = type \<and> breakpointKey (propertyValue (mk x)) = k
      \<and> createBreakpointQuery this [mk x] = Inr q"
    by simp
  then show ?thesis ..
qed

lemma constructor_entries:
  assumes "constructor bps = Inr this" and "(type, queries) \<in> set (mediaQueries this)"
    and "(k, q) \<in> set queries"
  shows "\<exists>p. propertyKey p = type \<and> breakpointKey (propertyValue p) = k
             \<and> createBreakpointQuery this [p] = Inr q"
proof -
  let ?s = "sortBreakpoints bps"
  let ?init = "\<lparr> sortedBreakpoints = ?s, breakpoints = bps, mediaQueries = [] \<rparr>"
  from constructor_unfold [OF assms(1)] obtain atQ ltQ gtQ geQ btQ where
    at: "createBreakpointQueries ?init At Name ?s = Inr atQ"
    and lt: "createBreakpointQueries ?init LessThan Name (tl ?s) = Inr ltQ"
    and gt: "createBreakpointQueries ?init GreaterThan Name (butlast ?s) = Inr gtQ"
    and ge: "createBreakpointQueries ?init GreaterThanOrEqual Name ?s = Inr geQ"
    and bt: "createBreakpointQueries ?init (\<lambda>(b1, b2). Between b1 b2) (\<lambda>(b1, b2). Tuple b1 b2)
              (betweenCombinations ?s) = Inr btQ"
    and inst: "this = \<lparr> sortedBreakpoints = ?s, breakpoints = bps, mediaQueries =
                 [(''at'', atQ), (''lessThan'', ltQ), (''greaterThan'', gtQ),
                  (''greaterThanOrEqual'', geQ), (''between'', btQ)] \<rparr>"
    by (elim exE conjE)
  have mq: "mediaQueries this = [(''at'', atQ), (''lessThan'', ltQ), (''greaterThan'', gtQ),
                  (''greaterThanOrEqual'', geQ), (''between'', btQ)]"
    unfolding inst by simp
  have upd: "this = ?init \<lparr> mediaQueries := mediaQueries this \<rparr>"
    unfolding inst by simp
  have same: "createBreakpointQuery this ps = createBreakpointQuery ?init ps" for ps
    by (subst upd) (rule createBreakpointQuery_mediaQueries)
  from assms(2) have "(type, queries) \<in> set [(''at'', atQ), (''lessThan'', ltQ),
      (''greaterThan'', gtQ), (''greaterThanOrEqual'', geQ), (''between'', btQ)]"
    unfolding mq .
  then have "type = ''at'' \<and> queries = atQ \<or> type = ''lessThan'' \<and> queries = ltQ
      \<or> type = ''greaterThan'' \<and> queries = gtQ
      \<or> type = ''greaterThanOrEqual'' \<and> queries = geQ \<or> type = ''between'' \<and> queries = btQ"
    by (simp only: list.set insert_iff empty_iff prod.inject simp_thms)
  then show ?thesis
  proof (elim disjE conjE)
    assume t: "type = ''at''" "queries = atQ"
    show ?thesis
      using at assms(3) unfolding t
      by (rule entries_of_kind) (simp_all only: propertyKey.simps propertyValue.simps same)
  next
    assume t: "type = ''lessThan''" "queries = ltQ"
    show ?thesis
      using lt assms(3) unfolding t
      by (rule entries_of_kind) (simp_all only: propertyKey.simps propertyValue.simps same)
  next
    assume t: "type = ''greaterThan''" "queries = gtQ"
    show ?thesis
      using gt assms(3) unfolding t
      by (rule entries_of_kind) (simp_all only: propertyKey.simps propertyValue.simps same)
  next
    assume t: "type = ''greaterThanOrEqual''" "queries = geQ"
    show ?thesis
      using ge assms(3) unfolding t
      by (rule entries_of_kind) (simp_all only: propertyKey.simps propertyValue.simps same)
  next
    assume t: "type = ''between''" "queries = btQ"
    show ?thesis
      using bt assms(3) unfolding t
      by (rule entries_of_kind)
         (simp_all only: propertyKey.simps propertyValue.simps same split_beta)
  qed
qed

section \<open>The claims\<close>

text \<open>
  C1. On an instance built from a breakpoint set, with widths that are safe integers,
  \<open>lessThan(b)\<close> compiles to \<open>(max-width:<width(b)-1>px)\<close>, \<open>greaterThanOrEqual(b)\<close> to
  \<open>(min-width:<width(b)>px)\<close>, \<open>between(b1,b2)\<close> to
  \<open>(min-width:<width(b1)>px) and (max-width:<width(b2)-1>px)\<close>, and \<open>greaterThan\<close> of the
  \<open>i\<close>-th name of the sorted sequence, when a next name exists, to
  \<open>(min-width:<width(next)>px)\<close>, the widths written in decimal.
\<close>

theorem createBreakpointQuery_compiles:
  assumes "distinct (map fst bps)" and "constructor bps = Inr this"
  shows "(map_of bps b = Some w \<and> Number_isSafeInteger w \<longrightarrow>
            createBreakpointQuery this [LessThan b]
              = Inr (''(max-width:'' @ show_int (w - 1) @ ''px)'')
          \<and> createBreakpointQuery this [GreaterThanOrEqual b]
              = Inr (''(min-width:'' @ show_int w @ ''px)''))
       \<and> (map_of bps b1 = Some w1 \<and> map_of bps b2 = Some w2
            \<and> Number_isSafeInteger w1 \<and> Number_isSafeInteger w2 \<longrightarrow>
            createBreakpointQuery this [Between b1 b2]
              = Inr (''(min-width:'' @ show_int w1 @ ''px) and (max-width:''
                       @ show_int (w2 - 1) @ ''px)''))
       \<and> (Suc i < length (sortedBreakpoints this)
            \<and> map_of bps (sortedBreakpoints this ! Suc i) = Some wn
            \<and> Number_isSafeInteger wn \<longrightarrow>
            createBreakpointQuery this [GreaterThan (sortedBreakpoints this ! i)]
              = Inr (''(min-width:'' @ show_int wn @ ''px)''))"
proof (intro conjI impI)
  note w = constructor_width_of [OF assms(2)]
  show "createBreakpointQuery this [LessThan b]
          = Inr (''(max-width:'' @ show_int (w - 1) @ ''px)'')"
    if "map_of bps b = Some w \<and> Number_isSafeInteger w"
    using that by (simp add: createBreakpointQuery_def normalizeProps_no_at w)
  show "createBreakpointQuery this [GreaterThanOrEqual b]
          = Inr (''(min-width:'' @ show_int w @ ''px)'')"
    if "map_of bps b = Some w \<and> Number_isSafeInteger w"
    using that by (simp add: createBreakpointQuery_def normalizeProps_no_at w)
  show "createBreakpointQuery this [Between b1 b2]
          = Inr (''(min-width:'' @ show_int w1 @ ''px) and (max-width:''
                   @ show_int (w2 - 1) @ ''px)'')"
    if "map_of bps b1 = Some w1 \<and> map_of bps b2 = Some w2
          \<and> Number_isSafeInteger w1 \<and> Number_isSafeInteger w2"
    using that by (simp add: createBreakpointQuery_def normalizeProps_no_at w)
  show "createBreakpointQuery this [GreaterThan (sortedBreakpoints this ! i)]
          = Inr (''(min-width:'' @ show_int wn @ ''px)'')"
    if h: "Suc i < length (sortedBreakpoints this)
            \<and> map_of bps (sortedBreakpoints this ! Suc i) = Some wn
            \<and> Number_isSafeInteger wn"
  proof -
    have "findNextBreakpoint this (sortedBreakpoints this ! i) = Inr (sortedBreakpoints this ! Suc i)"
      using constructor_names_distinct [OF assms] constructor_names_nonempty [OF assms(2)] h
      by (intro findNextBreakpoint_next) simp_all
    with h show ?thesis
      by (simp add: createBreakpointQuery_def normalizeProps_no_at w)
  qed
qed

theorem createBreakpointQuery_compiles_witness:
  "distinct (map fst example_breakpoints)
   \<and> constructor example_breakpoints = Inr example_instance
   \<and> Number_isSafeInteger 0 \<and> Number_isSafeInteger 768 \<and> Number_isSafeInteger 1024
   \<and> createBreakpointQuery example_instance [LessThan ''lg''] = Inr ''(max-width:1023px)''
   \<and> createBreakpointQuery example_instance [GreaterThanOrEqual ''md''] = Inr ''(min-width:768px)''
   \<and> createBreakpointQuery example_instance [Between ''sm'' ''lg'']
        = Inr ''(min-width:0px) and (max-width:1023px)''
   \<and> createBreakpointQuery example_instance [GreaterThan ''sm''] = Inr ''(min-width:768px)''"
proof -
  have d: "distinct (map fst example_breakpoints)"
    by (simp add: example_breakpoints_def)
  have s: "sortedBreakpoints example_instance = [''sm'', ''md'', ''lg'']"
    by (simp add: example_instance_def)
  have l: "map_of example_breakpoints ''lg'' = Some 1024"
      "map_of example_breakpoints ''md'' = Some 768"
      "map_of example_breakpoints ''sm'' = Some 0"
    by (simp_all add: example_breakpoints_def)
  have n: "Number_isSafeInteger 0" "Number_isSafeInteger 768" "Number_isSafeInteger 1024"
    by (simp_all add: Number_isSafeInteger_def)
  show ?thesis
    using createBreakpointQuery_compiles [OF d example_constructor, of "''lg''" 1024 "''sm''" 0 "''lg''" 1024 0 768]
      createBreakpointQuery_compiles [OF d example_constructor, of "''md''" 768 "''sm''" 0 "''lg''" 1024 0 768]
      d example_constructor n
    by (simp add: s l example_show_int)
qed

text \<open>
  C2. On an instance built from a breakpoint set, for a non-empty list \<open>onlyRenderAt\<close> of
  known names whose widths are \<open>ws\<close>: \<open>lessThan(b)\<close> is admitted iff the least of \<open>ws\<close> is
  below the width of \<open>b\<close>; \<open>greaterThanOrEqual(b)\<close> iff the greatest of \<open>ws\<close> is at least
  the width of \<open>b\<close>; \<open>greaterThan\<close> of a name with a successor in the sorted sequence iff the
  greatest of \<open>ws\<close> is at least the width of the successor; \<open>between(b1,b2)\<close> iff it is not
  the case that the greatest of \<open>ws\<close> is below the width of \<open>b1\<close> or the least of \<open>ws\<close> is
  at least the width of \<open>b2\<close>.
\<close>

theorem shouldRenderMediaQuery_admits:
  assumes "distinct (map fst bps)" and "constructor bps = Inr this"
    and "onlyRenderAt \<noteq> []" and "map (map_of bps) onlyRenderAt = map Some ws"
  shows "(map_of bps b = Some w \<longrightarrow>
            shouldRenderMediaQuery this [LessThan b] onlyRenderAt
              = Inr (Some (Min (set ws) < w))
          \<and> shouldRenderMediaQuery this [GreaterThanOrEqual b] onlyRenderAt
              = Inr (Some (Max (set ws) \<ge> w)))
       \<and> (Suc i < length (sortedBreakpoints this)
            \<and> map_of bps (sortedBreakpoints this ! Suc i) = Some wn \<longrightarrow>
            shouldRenderMediaQuery this [GreaterThan (sortedBreakpoints this ! i)] onlyRenderAt
              = Inr (Some (Max (set ws) \<ge> wn)))
       \<and> (map_of bps b1 = Some w1 \<and> map_of bps b2 = Some w2 \<longrightarrow>
            shouldRenderMediaQuery this [Between b1 b2] onlyRenderAt
              = Inr (Some (\<not> (Max (set ws) < w1 \<or> Min (set ws) \<ge> w2))))"
proof -
  have wf: "width_of this = map_of bps"
    by (rule ext) (simp add: constructor_width_of [OF assms(2)])
  from assms(3,4) have ne: "ws \<noteq> []" by auto
  have mn: "Math_min (map (width_of this) onlyRenderAt) = Finite (Min (set ws))"
    by (simp only: wf assms(4) Math_min_known [OF ne])
  have mx: "Math_max (map (width_of this) onlyRenderAt) = Finite (Max (set ws))"
    by (simp only: wf assms(4) Math_max_known [OF ne])
  have nx: "findNextBreakpoint this (sortedBreakpoints this ! i) = Inr (sortedBreakpoints this ! Suc i)"
    if "Suc i < length (sortedBreakpoints this)"
    using constructor_names_distinct [OF assms(1,2)] constructor_names_nonempty [OF assms(2)] that
    by (rule findNextBreakpoint_next)
  show ?thesis
    by (auto simp: shouldRenderMediaQuery_def normalizeProps_no_at mn mx nx ge_def
        constructor_width_of [OF assms(2)])
qed

theorem shouldRenderMediaQuery_admits_witness:
  "distinct (map fst example_breakpoints)
   \<and> constructor example_breakpoints = Inr example_instance
   \<and> map (map_of example_breakpoints) [''sm'', ''lg''] = map Some [0, 1024]
   \<and> shouldRenderMediaQuery example_instance [LessThan ''md''] [''sm'', ''lg''] = Inr (Some True)
   \<and> shouldRenderMediaQuery example_instance [GreaterThanOrEqual ''lg''] [''sm'', ''lg'']
       = Inr (Some True)
   \<and> shouldRenderMediaQuery example_instance [Between ''sm'' ''md''] [''sm'', ''lg'']
       = Inr (Some True)
   \<and> shouldRenderMediaQuery example_instance [GreaterThan ''sm''] [''sm'', ''lg'']
       = Inr (Some True)"
proof -
  have d: "distinct (map fst example_breakpoints)"
    by (simp add: example_breakpoints_def)
  have s: "sortedBreakpoints example_instance = [''sm'', ''md'', ''lg'']"
    by (simp add: example_instance_def)
  have o: "[''sm'', ''lg''] \<noteq> ([] :: string list)" by simp
  have m: "map (map_of example_breakpoints) [''sm'', ''lg''] = map Some [0, 1024]"
    by (simp add: example_breakpoints_def)
  have l: "map_of example_breakpoints ''lg'' = Some 1024"
      "map_of example_breakpoints ''md'' = Some 768"
      "map_of example_breakpoints ''sm'' = Some 0"
    by (simp_all add: example_breakpoints_def)
  show ?thesis
    using shouldRenderMediaQuery_admits [OF d example_constructor o m, of "''md''" 768 0 768 "''sm''" 0 "''md''" 768]
      shouldRenderMediaQuery_admits [OF d example_constructor o m, of "''lg''" 1024 0 768 "''sm''" 0 "''md''" 768]
      d example_constructor m
    by (simp add: s l)
qed

text \<open>
  C3. On an instance built from a breakpoint set, \<open>at\<close> of the \<open>i\<close>-th name of the sorted
  sequence compiles to the same result as \<open>between\<close> of that name and the next one, and
  \<open>at\<close> of the largest breakpoint to the same result as \<open>greaterThanOrEqual\<close> of it;
  \<open>shouldRenderMediaQuery\<close> answers the same for the two directives in both cases, and
  for every directive it answers what it answers for the normalized directive.
\<close>

theorem at_normalization:
  assumes "distinct (map fst bps)" and "constructor bps = Inr this"
  shows "(Suc i < length (sortedBreakpoints this) \<longrightarrow>
            createBreakpointQuery this [At (sortedBreakpoints this ! i)]
              = createBreakpointQuery this
                  [Between (sortedBreakpoints this ! i) (sortedBreakpoints this ! Suc i)]
          \<and> shouldRenderMediaQuery this [At (sortedBreakpoints this ! i)] onlyRenderAt
              = shouldRenderMediaQuery this
                  [Between (sortedBreakpoints this ! i) (sortedBreakpoints this ! Suc i)]
                  onlyRenderAt)
       \<and> (getLargestBreakpoint this = Some b \<longrightarrow>
            createBreakpointQuery this [At b] = createBreakpointQuery this [GreaterThanOrEqual b]
          \<and> shouldRenderMediaQuery this [At b] onlyRenderAt
              = shouldRenderMediaQuery this [GreaterThanOrEqual b] onlyRenderAt)
       \<and> shouldRenderMediaQuery this props onlyRenderAt
            = shouldRenderMediaQuery this (normalizeProps this props) onlyRenderAt"
proof (intro conjI impI)
  note d = constructor_names_distinct [OF assms]
  note n = constructor_names_nonempty [OF assms(2)]
  {
    assume i: "Suc i < length (sortedBreakpoints this)"
    have eq: "normalizeProps this [At (sortedBreakpoints this ! i)]
            = [Between (sortedBreakpoints this ! i) (sortedBreakpoints this ! Suc i)]"
      using d n i by (rule normalizeProps_at_next) simp
    show "createBreakpointQuery this [At (sortedBreakpoints this ! i)]
              = createBreakpointQuery this
                  [Between (sortedBreakpoints this ! i) (sortedBreakpoints this ! Suc i)]"
      using createBreakpointQuery_normalized [of this "[At (sortedBreakpoints this ! i)]"]
      by (simp only: eq)
    show "shouldRenderMediaQuery this [At (sortedBreakpoints this ! i)] onlyRenderAt
              = shouldRenderMediaQuery this
                  [Between (sortedBreakpoints this ! i) (sortedBreakpoints this ! Suc i)]
                  onlyRenderAt"
      using shouldRenderMediaQuery_normalized
              [of this "[At (sortedBreakpoints this ! i)]" onlyRenderAt]
      by (simp only: eq)
  }
  {
    assume b: "getLargestBreakpoint this = Some b"
    have eq: "normalizeProps this [At b] = [GreaterThanOrEqual b]"
      using d n b by (rule normalizeProps_at_last) simp
    show "createBreakpointQuery this [At b] = createBreakpointQuery this [GreaterThanOrEqual b]"
      using createBreakpointQuery_normalized [of this "[At b]"] by (simp only: eq)
    show "shouldRenderMediaQuery this [At b] onlyRenderAt
              = shouldRenderMediaQuery this [GreaterThanOrEqual b] onlyRenderAt"
      using shouldRenderMediaQuery_normalized [of this "[At b]" onlyRenderAt] by (simp only: eq)
  }
  show "shouldRenderMediaQuery this props onlyRenderAt
            = shouldRenderMediaQuery this (normalizeProps this props) onlyRenderAt"
    by (simp only: shouldRenderMediaQuery_normalized)
qed

theorem at_normalization_witness:
  "distinct (map fst example_breakpoints)
   \<and> constructor example_breakpoints = Inr example_instance
   \<and> createBreakpointQuery example_instance [At ''sm'']
       = createBreakpointQuery example_instance [Between ''sm'' ''md'']
   \<and> shouldRenderMediaQuery example_instance [At ''sm''] [''lg'']
       = shouldRenderMediaQuery example_instance [Between ''sm'' ''md''] [''lg'']
   \<and> getLargestBreakpoint example_instance = Some ''lg''
   \<and> createBreakpointQuery example_instance [At ''lg'']
       = createBreakpointQuery example_instance [GreaterThanOrEqual ''lg'']
   \<and> shouldRenderMediaQuery example_instance [At ''lg''] [''lg'']
       = shouldRenderMediaQuery example_instance [GreaterThanOrEqual ''lg''] [''lg'']"
proof -
  have d: "distinct (map fst example_breakpoints)"
    by (simp add: example_breakpoints_def)
  have s: "sortedBreakpoints example_instance = [''sm'', ''md'', ''lg'']"
    by (simp add: example_instance_def)
  have g: "getLargestBreakpoint example_instance = Some ''lg''"
    by (simp add: getLargestBreakpoint_def example_instance_def at_index_def)
  show ?thesis
    using at_normalization [OF d example_constructor, of 0 "[''lg'']" "''lg''"]
      d example_constructor g
    by (simp add: s)
qed

text \<open>
  C4. On an instance built from a breakpoint set, \<open>greaterThan(b)\<close> for the largest
  breakpoint \<open>b\<close> (the last name of the sorted sequence) fails, in compilation and in
  \<open>shouldRenderMediaQuery\<close> alike, with the error whose message is
  \<open>There is no breakpoint larger than b\<close>; the result is no query string and no boolean.
\<close>

theorem greaterThan_largest_fails:
  assumes "distinct (map fst bps)" and "constructor bps = Inr this"
    and "getLargestBreakpoint this = Some b"
  shows "createBreakpointQuery this [GreaterThan b]
           = Inl (Error (''There is no breakpoint larger than '' @ b))
       \<and> shouldRenderMediaQuery this [GreaterThan b] onlyRenderAt
           = Inl (Error (''There is no breakpoint larger than '' @ b))
       \<and> (\<forall>q. createBreakpointQuery this [GreaterThan b] \<noteq> Inr q)"
proof -
  have "findNextBreakpoint this b = Inl (Error (''There is no breakpoint larger than '' @ b))"
    using constructor_names_distinct [OF assms(1,2)] assms(3) by (rule findNextBreakpoint_last)
  then show ?thesis
    by (simp add: createBreakpointQuery_def shouldRenderMediaQuery_def normalizeProps_no_at)
qed

theorem greaterThan_largest_fails_witness:
  "distinct (map fst example_breakpoints)
   \<and> constructor example_breakpoints = Inr example_instance
   \<and> getLargestBreakpoint example_instance = Some ''lg''
   \<and> createBreakpointQuery example_instance [GreaterThan ''lg'']
        = Inl (Error ''There is no breakpoint larger than lg'')
   \<and> shouldRenderMediaQuery example_instance [GreaterThan ''lg''] [''sm'', ''lg'']
        = Inl (Error ''There is no breakpoint larger than lg'')"
proof -
  have d: "distinct (map fst example_breakpoints)"
    by (simp add: example_breakpoints_def)
  have g: "getLargestBreakpoint example_instance = Some ''lg''"
    by (simp add: getLargestBreakpoint_def example_instance_def at_index_def)
  show ?thesis
    using greaterThan_largest_fails [OF d example_constructor g, of "[''sm'', ''lg'']"]
      d example_constructor g
    by simp
qed




text \<open>
  C6. \<open>toRuleSets\<close> yields, kind after kind and in the order of each map, exactly one rule
  set per compiled query of the instance: its class name is made from the kind and the key
  of the query, and its body is \<open>not all and \<close> followed by the query. So there are as many
  rule sets as compiled queries. On an instance built from a breakpoint set the kinds are
  the five directive kinds, and every query stored under a kind and a key is the compiled
  condition of a directive of that kind with that key.
\<close>

theorem toRuleSets_negates_every_query:
  "toRuleSets createClassName createRuleSet this
     = concat (map (\<lambda>(type, queries).
                      map (\<lambda>(breakpoint, query).
                             createRuleSet (createClassName type breakpoint)
                               (''not all and '' @ query)) queries)
                 (mediaQueries this))
   \<and> length (toRuleSets createClassName createRuleSet this)
     = sum_list (map (\<lambda>(type, queries). length queries) (mediaQueries this))
   \<and> (constructor bps = Inr this \<longrightarrow>
        map fst (mediaQueries this) = validKeys
      \<and> (\<forall>type queries k q.
            (type, queries) \<in> set (mediaQueries this) \<and> (k, q) \<in> set queries \<longrightarrow>
            (\<exists>p. propertyKey p = type \<and> breakpointKey (propertyValue p) = k
                 \<and> createBreakpointQuery this [p] = Inr q)))"
proof (intro conjI impI allI)
  show eq: "toRuleSets createClassName createRuleSet this
     = concat (map (\<lambda>(type, queries).
                      map (\<lambda>(breakpoint, query).
                             createRuleSet (createClassName type breakpoint)
                               (''not all and '' @ query)) queries)
                 (mediaQueries this))"
    unfolding toRuleSets_def
    using foldl_push_types
      [of "\<lambda>type breakpoint query. createRuleSet (createClassName type breakpoint)
                                      (''not all and '' @ query)" "[]" "mediaQueries this"]
    by simp
  show "length (toRuleSets createClassName createRuleSet this)
     = sum_list (map (\<lambda>(type, queries). length queries) (mediaQueries this))"
    unfolding eq by (simp add: length_concat comp_def case_prod_unfold)
  show "map fst (mediaQueries this) = validKeys" if "constructor bps = Inr this"
    using that by (rule constructor_types)
  show "\<exists>p. propertyKey p = type \<and> breakpointKey (propertyValue p) = k
             \<and> createBreakpointQuery this [p] = Inr q"
    if "constructor bps = Inr this"
      and "(type, queries) \<in> set (mediaQueries this) \<and> (k, q) \<in> set queries"
    for type queries k q
    using that constructor_entries [of bps this type queries k q] by blast
qed

theorem toRuleSets_negates_every_query_witness:
  "constructor example_breakpoints = Inr example_instance
   \<and> map fst (mediaQueries example_instance) = validKeys
   \<and> length (toRuleSets (\<lambda>type breakpoint. type @ ''-'' @ breakpoint) Pair example_instance) = 13
   \<and> toRuleSets (\<lambda>type breakpoint. type @ ''-'' @ breakpoint) Pair example_instance ! 3
       = (''lessThan-md'', ''not all and (max-width:767px)'')
   \<and> (\<exists>p. propertyKey p = ''lessThan'' \<and> breakpointKey (propertyValue p) = ''md''
         \<and> createBreakpointQuery example_instance [p] = Inr ''(max-width:767px)'')"
proof -
  have m: "(''lessThan'', [(''md'', ''(max-width:767px)''), (''lg'', ''(max-width:1023px)'')])
             \<in> set (mediaQueries example_instance)"
    by (simp add: example_instance_def example_queries_def)
  note T = toRuleSets_negates_every_query
            [of "\<lambda>type breakpoint. type @ ''-'' @ breakpoint" Pair example_instance
                example_breakpoints]
  from T example_constructor have
    E: "\<forall>type queries k q.
            (type, queries) \<in> set (mediaQueries example_instance) \<and> (k, q) \<in> set queries \<longrightarrow>
            (\<exists>p. propertyKey p = type \<and> breakpointKey (propertyValue p) = k
                 \<and> createBreakpointQuery example_instance [p] = Inr q)"
    by blast
  have "\<exists>p. propertyKey p = ''lessThan'' \<and> breakpointKey (propertyValue p) = ''md''
         \<and> createBreakpointQuery example_instance [p] = Inr ''(max-width:767px)''"
    using E [rule_format, of "''lessThan''"
               "[(''md'', ''(max-width:767px)''), (''lg'', ''(max-width:1023px)'')]"
               "''md''" "''(max-width:767px)''"] m
    by simp
  moreover from T have "length (toRuleSets (\<lambda>type breakpoint. type @ ''-'' @ breakpoint) Pair
      example_instance) = 13"
    by (simp add: example_instance_def example_queries_def)
  moreover from T have "toRuleSets (\<lambda>type breakpoint. type @ ''-'' @ breakpoint) Pair
      example_instance ! 3 = (''lessThan-md'', ''not all and (max-width:767px)'')"
    by (simp add: example_instance_def example_queries_def)
  moreover from T example_constructor have "map fst (mediaQueries example_instance) = validKeys"
    by blast
  ultimately show ?thesis
    using example_constructor by simp
qed

text \<open>
  C7. For a breakpoint set with pairwise distinct widths (and, as the keys of an object,
  pairwise distinct names) the sorted breakpoint sequence computed by the constructor has
  as many elements as the set, holds every breakpoint name exactly once, and the widths
  are strictly ascending along it; this is the sequence a constructed instance stores.
\<close>

theorem sorted_sequence_strictly_ascending:
  assumes "distinct (map fst bps)" and "distinct (map snd bps)"
  shows "length (sortBreakpoints bps) = length bps
       \<and> set (sortBreakpoints bps) = fst ` set bps
       \<and> distinct (sortBreakpoints bps)
       \<and> sorted_wrt (\<lambda>a b. \<exists>wa wb. map_of bps a = Some wa \<and> map_of bps b = Some wb \<and> wa < wb)
            (sortBreakpoints bps)
       \<and> (\<forall>this. constructor bps = Inr this \<longrightarrow> sortedBreakpoints this = sortBreakpoints bps)"
proof (intro conjI allI impI)
  show "sorted_wrt (\<lambda>a b. \<exists>wa wb. map_of bps a = Some wa \<and> map_of bps b = Some wb \<and> wa < wb)
          (sortBreakpoints bps)"
    using assms by (rule sortBreakpoints_ascending)
qed (simp_all add: sortBreakpoints_length sortBreakpoints_set sortBreakpoints_distinct
      constructor_fields assms)

theorem sorted_sequence_strictly_ascending_witness:
  "distinct (map fst example_breakpoints) \<and> distinct (map snd example_breakpoints)
   \<and> constructor example_breakpoints = Inr example_instance
   \<and> sortedBreakpoints example_instance = [''sm'', ''md'', ''lg'']
   \<and> length (sortBreakpoints example_breakpoints) = 3
   \<and> sorted_wrt (\<lambda>a b. \<exists>wa wb. map_of example_breakpoints a = Some wa
          \<and> map_of example_breakpoints b = Some wb \<and> wa < wb) [''sm'', ''md'', ''lg'']"
proof -
  have d1: "distinct (map fst example_breakpoints)"
    by (simp add: example_breakpoints_def)
  have d2: "distinct (map snd example_breakpoints)"
    by (simp add: example_breakpoints_def)
  show ?thesis
    using sorted_sequence_strictly_ascending [OF d1 d2] d1 d2 example_constructor
    by (simp add: example_sorted example_instance_def)
qed

text \<open>
  C8, as amended. On an instance built from a breakpoint set, a directive whose operand \<open>b\<close>
  is a name that the set does not hold, and that no object inherits, is not rejected.
  \<open>lessThan(b)\<close> compiles to \<open>(max-width:NaNpx)\<close> and \<open>greaterThanOrEqual(b)\<close> to
  \<open>(min-width:undefinedpx)\<close>, and \<open>shouldRenderMediaQuery\<close> answers \<open>false\<close> for both,
  whatever \<open>onlyRenderAt\<close> is; \<open>between(b,c)\<close>, for a known \<open>c\<close> whose width is a safe
  integer, compiles with \<open>undefined\<close> as its lower bound.
\<close>

theorem unknown_name_not_rejected:
  assumes "constructor bps = Inr this" and "b \<notin> fst ` set bps"
    and "b \<notin> set Object_prototype_names"
  shows "createBreakpointQuery this [LessThan b] = Inr ''(max-width:NaNpx)''
       \<and> createBreakpointQuery this [GreaterThanOrEqual b] = Inr ''(min-width:undefinedpx)''
       \<and> shouldRenderMediaQuery this [LessThan b] onlyRenderAt = Inr (Some False)
       \<and> shouldRenderMediaQuery this [GreaterThanOrEqual b] onlyRenderAt = Inr (Some False)
       \<and> (map_of bps c = Some w \<and> Number_isSafeInteger w \<longrightarrow>
            createBreakpointQuery this [Between b c]
              = Inr (''(min-width:undefinedpx) and (max-width:'' @ show_int (w - 1) @ ''px)''))"
proof -
  have m: "map_of bps b = None"
    using assms(2) by (simp add: map_of_eq_None_iff)
  have w: "width_of this = map_of bps"
    by (rule ext) (simp add: constructor_width_of [OF assms(1)])
  have ltN: "lt x NaN = False" for x by (cases x) simp_all
  show ?thesis
    by (simp add: createBreakpointQuery_def shouldRenderMediaQuery_def normalizeProps_no_at
        w m ltN ge_def)
qed

theorem unknown_name_not_rejected_witness:
  "constructor example_breakpoints = Inr example_instance
   \<and> ''xl'' \<notin> fst ` set example_breakpoints \<and> ''xl'' \<notin> set Object_prototype_names
   \<and> map_of example_breakpoints ''lg'' = Some 1024 \<and> Number_isSafeInteger 1024
   \<and> createBreakpointQuery example_instance [LessThan ''xl''] = Inr ''(max-width:NaNpx)''
   \<and> createBreakpointQuery example_instance [GreaterThanOrEqual ''xl'']
       = Inr ''(min-width:undefinedpx)''
   \<and> shouldRenderMediaQuery example_instance [LessThan ''xl''] [''sm''] = Inr (Some False)
   \<and> shouldRenderMediaQuery example_instance [GreaterThanOrEqual ''xl''] [''sm'']
       = Inr (Some False)
   \<and> createBreakpointQuery example_instance [Between ''xl'' ''lg'']
       = Inr ''(min-width:undefinedpx) and (max-width:1023px)''"
proof -
  have x: "''xl'' \<notin> fst ` set example_breakpoints"
    by (simp add: example_breakpoints_def)
  have p: "''xl'' \<notin> set Object_prototype_names"
    by (simp add: Object_prototype_names_def)
  have l: "map_of example_breakpoints ''lg'' = Some 1024"
    by (simp add: example_breakpoints_def)
  have n: "Number_isSafeInteger 1024"
    by (simp add: Number_isSafeInteger_def)
  show ?thesis
    using unknown_name_not_rejected [OF example_constructor x p, of "[''sm'']" "''lg''" 1024]
      example_constructor x p l n
    by (simp add: example_show_int)
qed

theorem unknown_name_counterexample:
  "constructor example_breakpoints = Inr example_instance
   \<and> map_of example_breakpoints ''xl'' = None
   \<and> createBreakpointQuery example_instance [LessThan ''xl''] = Inr ''(max-width:NaNpx)''
   \<and> shouldRenderMediaQuery example_instance [LessThan ''xl''] [''sm''] = Inr (Some False)
   \<and> createBreakpointQuery example_instance [GreaterThan ''xl''] = Inr ''(min-width:0px)''"
proof (intro conjI)
  show "createBreakpointQuery example_instance [LessThan ''xl''] = Inr ''(max-width:NaNpx)''"
    by code_simp
  show "shouldRenderMediaQuery example_instance [LessThan ''xl''] [''sm''] = Inr (Some False)"
    by code_simp
  show "createBreakpointQuery example_instance [GreaterThan ''xl''] = Inr ''(min-width:0px)''"
    by code_simp
  show "constructor example_breakpoints = Inr example_instance"
    by (rule example_constructor)
  show "map_of example_breakpoints ''xl'' = None"
    by (simp add: example_breakpoints_def)
qed




text \<open>
  C10. On an instance built from a breakpoint set, \<open>shouldRenderMediaQuery\<close> with the empty
  list \<open>onlyRenderAt\<close> does not fail and returns \<open>false\<close> for \<open>at\<close>, \<open>lessThan\<close> and
  \<open>greaterThanOrEqual\<close> of a known name, for \<open>greaterThan\<close> of a name that has a successor
  in the sorted sequence, and for \<open>between\<close> of two known names: the least of no width is
  \<open>Infinity\<close> and the greatest is \<open>-Infinity\<close>.
\<close>

theorem shouldRenderMediaQuery_empty:
  assumes "distinct (map fst bps)" and "constructor bps = Inr this"
  shows "Math_min [] = PosInfinity \<and> Math_max [] = NegInfinity
       \<and> (b \<in> fst ` set bps \<longrightarrow>
            shouldRenderMediaQuery this [At b] [] = Inr (Some False)
          \<and> shouldRenderMediaQuery this [LessThan b] [] = Inr (Some False)
          \<and> shouldRenderMediaQuery this [GreaterThanOrEqual b] [] = Inr (Some False))
       \<and> (Suc i < length (sortedBreakpoints this) \<longrightarrow>
            shouldRenderMediaQuery this [GreaterThan (sortedBreakpoints this ! i)] []
              = Inr (Some False))
       \<and> (b1 \<in> fst ` set bps \<and> b2 \<in> fst ` set bps \<longrightarrow>
            shouldRenderMediaQuery this [Between b1 b2] [] = Inr (Some False))"
proof (intro conjI impI)
  note ne = constructor_names_nonempty [OF assms(2)]
  note di = constructor_names_distinct [OF assms]
  have names: "set (sortedBreakpoints this) = fst ` set bps"
    by (simp add: constructor_fields [OF assms(2)] sortBreakpoints_set)
  have known: "\<exists>w. width_of this x = Some w" if "x \<in> fst ` set bps" for x
  proof -
    from that obtain w where "(x, w) \<in> set bps" by auto
    with assms(1) have "map_of bps x = Some w" by simp
    then show ?thesis by (simp add: constructor_width_of [OF assms(2)])
  qed
  show "Math_min [] = PosInfinity" by (rule Math_min_empty)
  show "Math_max [] = NegInfinity" by (rule Math_max_empty)
  show "shouldRenderMediaQuery this [LessThan b] [] = Inr (Some False)"
    by (rule shouldRender_empty_lessThan)
  show "shouldRenderMediaQuery this [GreaterThanOrEqual b] [] = Inr (Some False)"
    by (rule shouldRender_empty_greaterThanOrEqual)
  show "shouldRenderMediaQuery this [Between b1 b2] [] = Inr (Some False)"
    if "b1 \<in> fst ` set bps \<and> b2 \<in> fst ` set bps"
    using that known [of b1] by (auto intro: shouldRender_empty_between)
  show "shouldRenderMediaQuery this [At b] [] = Inr (Some False)" if b: "b \<in> fst ` set bps"
  proof -
    from b names ne have "b \<noteq> []" by metis
    with normalizeProps_at_cases [of this b]
    consider "normalizeProps this [At b] = [GreaterThanOrEqual b]"
      | t where "normalizeProps this [At b] = [Between b t]"
      by auto
    then show ?thesis
    proof cases
      case 1
      with shouldRenderMediaQuery_normalized [of this "[At b]" "[]"]
      show ?thesis by (simp add: shouldRender_empty_greaterThanOrEqual)
    next
      case 2
      from known [OF b] obtain w where "width_of this b = Some w" ..
      then have "shouldRenderMediaQuery this [Between b t] [] = Inr (Some False)"
        by (rule shouldRender_empty_between)
      with 2 shouldRenderMediaQuery_normalized [of this "[At b]" "[]"]
      show ?thesis by simp
    qed
  qed
  show "shouldRenderMediaQuery this [GreaterThan (sortedBreakpoints this ! i)] []
          = Inr (Some False)" if i: "Suc i < length (sortedBreakpoints this)"
  proof -
    have nx: "findNextBreakpoint this (sortedBreakpoints this ! i)
                = Inr (sortedBreakpoints this ! Suc i)"
      using di ne i by (rule findNextBreakpoint_next)
    have "sortedBreakpoints this ! Suc i \<in> fst ` set bps"
      using i names nth_mem by blast
    from known [OF this] obtain w where "width_of this (sortedBreakpoints this ! Suc i) = Some w" ..
    then show ?thesis
      by (simp add: shouldRenderMediaQuery_def normalizeProps_no_at nx Math_max_empty ge_def)
  qed
qed

theorem shouldRenderMediaQuery_empty_witness:
  "distinct (map fst example_breakpoints)
   \<and> constructor example_breakpoints = Inr example_instance
   \<and> shouldRenderMediaQuery example_instance [At ''md''] [] = Inr (Some False)
   \<and> shouldRenderMediaQuery example_instance [LessThan ''md''] [] = Inr (Some False)
   \<and> shouldRenderMediaQuery example_instance [GreaterThanOrEqual ''md''] [] = Inr (Some False)
   \<and> shouldRenderMediaQuery example_instance [GreaterThan ''md''] [] = Inr (Some False)
   \<and> shouldRenderMediaQuery example_instance [Between ''sm'' ''lg''] [] = Inr (Some False)"
proof -
  have d: "distinct (map fst example_breakpoints)"
    by (simp add: example_breakpoints_def)
  have s: "sortedBreakpoints example_instance = [''sm'', ''md'', ''lg'']"
    by (simp add: example_instance_def)
  have k: "''md'' \<in> fst ` set example_breakpoints" "''sm'' \<in> fst ` set example_breakpoints"
      "''lg'' \<in> fst ` set example_breakpoints"
    by (simp_all add: example_breakpoints_def)
  show ?thesis
    using shouldRenderMediaQuery_empty [OF d example_constructor, of "''md''" 1 "''sm''" "''lg''"]
      d example_constructor k
    by (simp add: s)
qed

end
